theory Spec2Isabelle
  imports Main "HOL-Library.AList"
begin

section \<open>Data model of \<open>utils/neo4jdownloader.py\<close>\<close>

text \<open>
  The module talks to a Neo4j store through a driver session and turns the rows it gets
  back into Python dictionaries of lists and arrays. The store is an external
  collaborator: it is a parameter of the model (a record of query functions), and every
  query either yields its rows or raises.

  A Python \<open>dict\<close> keeps its keys in insertion order, and the code iterates over
  \<open>.items()\<close>, so a dictionary is an association list: \<open>map_of d k\<close> is \<open>d[k]\<close>
  (\<open>None\<close> where Python raises \<open>KeyError\<close>), and \<open>AList.update k v d\<close> is
  \<open>d[k] = v\<close> (in place for a key that is present, appended at the end otherwise).
\<close>

type_synonym label = string
type_synonym props = "(string \<times> string) list"
type_synonym ('k, 'v) dict = "('k \<times> 'v) list"

text \<open>Nodes, relationships and paths as the driver returns them. \<open>nid\<close> is \<open>n.id\<close>,
  \<open>rid\<close> is the store's identity of a relationship (\<open>r.id\<close>, which the module never
  reads), \<open>rtype\<close> is \<open>r.type\<close>, \<open>nprops\<close> and \<open>rprops\<close> are \<open>dict(n)\<close> and
  \<open>dict(r)\<close>. The labels of a node are listed in the order in which Python iterates
  over \<open>n.labels\<close>.\<close>

record node =
  nid :: int
  labels :: "label list"
  nprops :: props

record relationship =
  rid :: int
  rtype :: string
  start_node :: node
  end_node :: node
  rprops :: props

record path =
  nodes :: "node list"
  relationships :: "relationship list"

text \<open>One entry of the caller's relation declaration: \<open>info["source"]\<close> and
  \<open>info["target"]\<close>.\<close>

record info =
  source :: label
  target :: label

type_synonym rel_def = "(string, info) dict"
type_synonym rel_decl = "(string, rel_def) dict"

text \<open>Rows of \<open>get_nodes\<close> (\<open>record["value.id"]\<close>, \<open>record["features"]\<close>) and of
  \<open>get_edges\<close> (\<open>record["src"]\<close>, \<open>record["dst"]\<close>, \<open>record["edge_features"]\<close>).\<close>

record node_row =
  value_id :: int
  features :: props

record edge_row =
  src :: int
  dst :: int
  edge_features :: props

text \<open>The exceptions that occur: the two driver exception classes the module imports,
  and Python's \<open>KeyError\<close> of a dictionary subscript, carrying the missing key.\<close>

datatype error = DriverError string | Neo4jError string | KeyError string

text \<open>The store behind a session. Each field is one kind of query the module issues,
  with the rows fully iterated; \<open>Inl\<close> is the exception raised by \<open>run\<close> or while
  iterating over its result.\<close>

record store =
  run_filter :: "string \<Rightarrow> error + node list"
  run_expand :: "int list \<Rightarrow> int \<Rightarrow> error + path list"
  run_nodes :: "label \<Rightarrow> error + node_row list"
  run_edges :: "label \<Rightarrow> string \<Rightarrow> label \<Rightarrow> error + edge_row list"

text \<open>What a call does besides returning: the queries it sends, what it prints and what
  it logs, in order.\<close>

datatype event =
    Run_filter string
  | Run_expand "int list" int
  | Print string
  | Log_error error

text \<open>A numpy array of integers, as its list of rows. \<open>np.array([srcs, dsts])\<close> has the
  two rows \<open>srcs\<close> and \<open>dsts\<close>. \<open>np.array(edge_index).T\<close> of a list of \<open>[src, dst]\<close>
  pairs is the same two rows when the list is non-empty, and the empty array (no rows)
  when it is empty.\<close>

type_synonym ndarray = "int list list"

definition np_array_T :: "(int \<times> int) list \<Rightarrow> ndarray" where
  "np_array_T edge_index =
     (if edge_index = [] then [] else [map fst edge_index, map snd edge_index])"

type_synonym raw_edge = "int \<times> int \<times> props \<times> label list \<times> label list"
type_synonym edge = "int \<times> int \<times> props"

type_synonym nodes_ids = "(label, int list) dict"
type_synonym nodes_features = "(label, props list) dict"
type_synonym edges_indices = "(string, (string, ndarray) dict) dict"
type_synonym edges_attributes = "(string, (string, props list) dict) dict"
type_synonym snapshot = "nodes_ids \<times> nodes_features \<times> edges_indices \<times> edges_attributes"

section \<open>\<open>get_nodes\<close>, \<open>get_edges\<close>, \<open>retrieve_edges\<close>\<close>

text \<open>\<open>get_nodes\<close> catches \<open>DriverError\<close> and \<open>Neo4jError\<close>, logs and raises again;
  anything else passes through unlogged.\<close>

definition get_nodes :: "store \<Rightarrow> label \<Rightarrow> event list \<times> (error + int list \<times> props list)" where
  "get_nodes driver lab =
     (case run_nodes driver lab of
        Inl (KeyError k) \<Rightarrow> ([], Inl (KeyError k))
      | Inl e \<Rightarrow> ([Log_error e], Inl e)
      | Inr results \<Rightarrow> ([], Inr (map value_id results, map features results)))"

text \<open>\<open>get_edges\<close> has no handler: an exception of the store leaves it as it is.\<close>

definition get_edges :: "store \<Rightarrow> label \<Rightarrow> string \<Rightarrow> label \<Rightarrow> error + ndarray \<times> props list" where
  "get_edges driver src_label rel_type dst_label =
     (case run_edges driver src_label rel_type dst_label of
        Inl e \<Rightarrow> Inl e
      | Inr results \<Rightarrow>
          Inr (np_array_T (map (\<lambda>record. (src record, dst record)) results),
               map edge_features results))"

text \<open>The inner loop of \<open>retrieve_edges\<close> over \<open>subdict.items()\<close>, filling
  \<open>edges_index[key]\<close> and \<open>edges_attributes[key]\<close>.\<close>

fun retrieve_edges_sub ::
  "store \<Rightarrow> string \<Rightarrow> (string \<times> info) list \<Rightarrow>
   (string, ndarray) dict \<times> (string, props list) dict \<Rightarrow>
   error + (string, ndarray) dict \<times> (string, props list) dict" where
  "retrieve_edges_sub driver key [] acc = Inr acc"
| "retrieve_edges_sub driver key ((type, val) # rest) (index_key, attributes_key) =
     (case get_edges driver (source val) key (target val) of
        Inl e \<Rightarrow> Inl e
      | Inr (edge_index, edge_attributes) \<Rightarrow>
          retrieve_edges_sub driver key rest
            (AList.update type edge_index index_key,
             AList.update type edge_attributes attributes_key))"

text \<open>The outer loop over \<open>relationship_dict.items()\<close>.\<close>

fun retrieve_edges_loop ::
  "store \<Rightarrow> (string \<times> rel_def) list \<Rightarrow> edges_indices \<times> edges_attributes \<Rightarrow>
   error + edges_indices \<times> edges_attributes" where
  "retrieve_edges_loop driver [] acc = Inr acc"
| "retrieve_edges_loop driver ((key, subdict) # rest) (edges_index, edges_attributes) =
     (case retrieve_edges_sub driver key subdict ([], []) of
        Inl e \<Rightarrow> Inl e
      | Inr (index_key, attributes_key) \<Rightarrow>
          retrieve_edges_loop driver rest
            (AList.update key index_key edges_index,
             AList.update key attributes_key edges_attributes))"

definition retrieve_edges :: "store \<Rightarrow> rel_decl \<Rightarrow> error + edges_indices \<times> edges_attributes" where
  "retrieve_edges driver relationship_dict = retrieve_edges_loop driver relationship_dict ([], [])"

section \<open>\<open>retrieve_subgraph\<close>\<close>

subsection \<open>Collecting nodes and raw edges from the paths\<close>

text \<open>\<open>bucket d k\<close> reads a list-valued dictionary at a key that the code has made sure
  is present.\<close>

definition bucket :: "('k, 'a list) dict \<Rightarrow> 'k \<Rightarrow> 'a list" where
  "bucket d k = (case map_of d k of None \<Rightarrow> [] | Some xs \<Rightarrow> xs)"

text \<open>The body of \<open>for lab in n.labels\<close>: create the two buckets of a new label, then
  append the node unless its id is in the bucket already.\<close>

definition add_label :: "node \<Rightarrow> label \<Rightarrow> nodes_ids \<times> nodes_features \<Rightarrow> nodes_ids \<times> nodes_features" where
  "add_label n lab st =
     (let (ids0, feats0) = st;
          (ids1, feats1) =
            (if map_of ids0 lab = None
             then (AList.update lab [] ids0, AList.update lab [] feats0)
             else (ids0, feats0))
      in if nid n \<in> set (bucket ids1 lab) then (ids1, feats1)
         else (AList.update lab (bucket ids1 lab @ [nid n]) ids1,
               AList.update lab (bucket feats1 lab @ [nprops n]) feats1))"

definition add_node :: "node \<Rightarrow> nodes_ids \<times> nodes_features \<Rightarrow> nodes_ids \<times> nodes_features" where
  "add_node n st = fold (add_label n) (labels n) st"

text \<open>The tuple stored for a relationship, and the body of
  \<open>for r in p.relationships\<close>.\<close>

definition raw_of :: "relationship \<Rightarrow> raw_edge" where
  "raw_of r = (nid (start_node r), nid (end_node r), rprops r,
               labels (start_node r), labels (end_node r))"

definition add_relationship :: "relationship \<Rightarrow> (string, raw_edge list) dict \<Rightarrow> (string, raw_edge list) dict" where
  "add_relationship r tmp_edges =
     (let reltype = rtype r;
          tmp1 = (if map_of tmp_edges reltype = None
                  then AList.update reltype [] tmp_edges else tmp_edges)
      in AList.update reltype (bucket tmp1 reltype @ [raw_of r]) tmp1)"

text \<open>The body of \<open>for record in paths\<close>, and the whole loop from empty dictionaries.\<close>

definition process_path ::
  "path \<Rightarrow> (nodes_ids \<times> nodes_features) \<times> (string, raw_edge list) dict \<Rightarrow>
   (nodes_ids \<times> nodes_features) \<times> (string, raw_edge list) dict" where
  "process_path p st =
     (fold add_node (nodes p) (fst st), fold add_relationship (relationships p) (snd st))"

definition collect :: "path list \<Rightarrow> (nodes_ids \<times> nodes_features) \<times> (string, raw_edge list) dict" where
  "collect paths = fold process_path paths (([], []), [])"

subsection \<open>Classifying the raw edges of one relationship type\<close>

text \<open>\<open>label_to_type\<close>: a later declaration with the same label pair overwrites an
  earlier one.\<close>

definition build_label_to_type :: "rel_def \<Rightarrow> (label \<times> label, string) dict" where
  "build_label_to_type rd =
     fold (\<lambda>(typename, info). AList.update (source info, target info) typename) rd []"

text \<open>\<open>grouped = {typename: [] for typename in rel_def.keys()}\<close>\<close>

definition init_grouped :: "rel_def \<Rightarrow> (string, edge list) dict" where
  "init_grouped rd = fold (\<lambda>typename. AList.update typename []) (map fst rd) []"

text \<open>The body of the two label loops (\<open>tl'\<close> is the source's \<open>tl\<close>): the test \<open>(sl, tl) in label_to_type\<close> and the
  append to \<open>grouped[typename]\<close>. There is no \<open>break\<close>: the loops go on after a hit.
  Every value of \<open>label_to_type\<close> is a key of \<open>grouped\<close> (lemma
  \<open>label_to_type_in_grouped\<close> below), so the subscript \<open>grouped[typename]\<close> finds
  its key.\<close>

definition classify_pair ::
  "(label \<times> label, string) dict \<Rightarrow> edge \<Rightarrow> label \<Rightarrow> label \<Rightarrow>
   (string, edge list) dict \<Rightarrow> (string, edge list) dict" where
  "classify_pair label_to_type e sl tl' grouped =
     (case map_of label_to_type (sl, tl') of
        None \<Rightarrow> grouped
      | Some typename \<Rightarrow>
          (case map_of grouped typename of
             None \<Rightarrow> grouped
           | Some items \<Rightarrow> AList.update typename (items @ [e]) grouped))"

definition classify_edge ::
  "(label \<times> label, string) dict \<Rightarrow> raw_edge \<Rightarrow> (string, edge list) dict \<Rightarrow> (string, edge list) dict" where
  "classify_edge label_to_type t grouped =
     (case t of (src_id, dst_id, props, src_labels, dst_labels) \<Rightarrow>
        fold (\<lambda>sl. fold (classify_pair label_to_type (src_id, dst_id, props) sl) dst_labels)
          src_labels grouped)"

definition group_edges :: "rel_def \<Rightarrow> raw_edge list \<Rightarrow> (string, edge list) dict" where
  "group_edges rd triples = fold (classify_edge (build_label_to_type rd)) triples (init_grouped rd)"

text \<open>The loop over \<open>grouped.items()\<close>: an empty group is skipped, a non-empty one is
  written to both dictionaries.\<close>

definition emit_group ::
  "string \<times> edge list \<Rightarrow> (string, ndarray) dict \<times> (string, props list) dict \<Rightarrow>
   (string, ndarray) dict \<times> (string, props list) dict" where
  "emit_group g acc =
     (case g of (typename, items) \<Rightarrow>
        if items = [] then acc
        else (AList.update typename [map fst items, map (\<lambda>e. fst (snd e)) items] (fst acc),
              AList.update typename (map (\<lambda>e. snd (snd e)) items) (snd acc)))"

definition emit_groups ::
  "(string, edge list) dict \<Rightarrow> (string, ndarray) dict \<times> (string, props list) dict" where
  "emit_groups grouped = fold emit_group grouped ([], [])"

text \<open>The loop over \<open>tmp_edges.items()\<close>. \<open>relationships[reltype]\<close> raises
  \<open>KeyError\<close> for a type that the declaration does not have.\<close>

fun classify_all ::
  "rel_decl \<Rightarrow> (string \<times> raw_edge list) list \<Rightarrow> edges_indices \<times> edges_attributes \<Rightarrow>
   error + edges_indices \<times> edges_attributes" where
  "classify_all decl [] acc = Inr acc"
| "classify_all decl ((reltype, triples) # rest) (edges_indices, edges_attributes) =
     (case map_of decl reltype of
        None \<Rightarrow> Inl (KeyError reltype)
      | Some rd \<Rightarrow>
          (let (ind, att) = emit_groups (group_edges rd triples)
           in classify_all decl rest
                (AList.update reltype ind edges_indices,
                 AList.update reltype att edges_attributes)))"

subsection \<open>The extraction\<close>

definition retrieve_subgraph ::
  "store \<Rightarrow> rel_decl \<Rightarrow> string \<Rightarrow> int \<Rightarrow> event list \<times> (error + snapshot)" where
  "retrieve_subgraph session decl cypher_filter_query depth =
     (case run_filter session cypher_filter_query of
        Inl e \<Rightarrow> ([Run_filter cypher_filter_query], Inl e)
      | Inr seed_result \<Rightarrow>
          (let seed_ids = map nid seed_result in
           if seed_ids = [] then ([Run_filter cypher_filter_query], Inr ([], [], [], []))
           else
             (let started = [Run_filter cypher_filter_query,
                             Print ''Starting expansion and extraction of subgraph...'',
                             Run_expand seed_ids depth]
              in case run_expand session seed_ids depth of
                   Inl e \<Rightarrow> (started, Inl e)
                 | Inr paths \<Rightarrow>
                     (case collect paths of ((ids, feats), tmp_edges) \<Rightarrow>
                        (case classify_all decl tmp_edges ([], []) of
                           Inl e \<Rightarrow> (started, Inl e)
                         | Inr (edges_indices, edges_attributes) \<Rightarrow>
                             (started @ [Print ''Finished extraction of subgraph.''],
                              Inr (ids, feats, edges_indices, edges_attributes)))))))"

section \<open>Notions used in the statements\<close>

text \<open>The relationships of one type in the order in which the paths list them, as the
  tuples the code stores: lemma \<open>bucket_collect\<close> shows that this is
  \<open>tmp_edges[reltype]\<close>.\<close>

definition raw_edges_of :: "path list \<Rightarrow> string \<Rightarrow> raw_edge list" where
  "raw_edges_of paths reltype =
     map raw_of (filter (\<lambda>r. rtype r = reltype) (concat (map relationships paths)))"

text \<open>The label pairs of a raw edge that \<open>label_to_type\<close> maps to a given sub-type, in
  the order of the two label loops (source labels outside, destination labels inside),
  and one copy of the edge for each of them.\<close>

definition matching_pairs ::
  "(label \<times> label, string) dict \<Rightarrow> string \<Rightarrow> raw_edge \<Rightarrow> (label \<times> label) list" where
  "matching_pairs label_to_type typename t =
     (case t of (src_id, dst_id, props, src_labels, dst_labels) \<Rightarrow>
        filter (\<lambda>pr. map_of label_to_type pr = Some typename)
          (List.product src_labels dst_labels))"

definition copies :: "(label \<times> label, string) dict \<Rightarrow> string \<Rightarrow> raw_edge \<Rightarrow> edge list" where
  "copies label_to_type typename t =
     (case t of (src_id, dst_id, props, src_labels, dst_labels) \<Rightarrow>
        map (\<lambda>pr. (src_id, dst_id, props)) (matching_pairs label_to_type typename t))"

text \<open>A raw edge none of whose label pairs is in \<open>label_to_type\<close>.\<close>

definition unmatched :: "(label \<times> label, string) dict \<Rightarrow> raw_edge \<Rightarrow> bool" where
  "unmatched label_to_type t =
     (case t of (src_id, dst_id, props, src_labels, dst_labels) \<Rightarrow>
        filter (\<lambda>pr. map_of label_to_type pr \<noteq> None) (List.product src_labels dst_labels) = [])"

section \<open>Example data\<close>

text \<open>A user, a repository and a node with two labels; \<open>owns\<close> relationships between
  them in both directions; a \<open>forked_from\<close> self-loop; two declarations; and stores
  that answer every query with fixed rows, or fail.\<close>

definition user1 :: node where
  "user1 = \<lparr>nid = 1, labels = [''User''], nprops = [(''name'', ''ann'')]\<rparr>"

definition repo2 :: node where
  "repo2 = \<lparr>nid = 2, labels = [''Repo''], nprops = [(''name'', ''odonata'')]\<rparr>"

definition team3 :: node where
  "team3 = \<lparr>nid = 3, labels = [''User'', ''Org''], nprops = [(''name'', ''core'')]\<rparr>"

definition owns12 :: relationship where
  "owns12 = \<lparr>rid = 10, rtype = ''owns'', start_node = user1, end_node = repo2, rprops = []\<rparr>"

definition owns21 :: relationship where
  "owns21 = \<lparr>rid = 11, rtype = ''owns'', start_node = repo2, end_node = user1, rprops = []\<rparr>"

definition owns21' :: relationship where
  "owns21' = \<lparr>rid = 12, rtype = ''owns'', start_node = repo2, end_node = user1, rprops = []\<rparr>"

definition owns32 :: relationship where
  "owns32 = \<lparr>rid = 13, rtype = ''owns'', start_node = team3, end_node = repo2, rprops = []\<rparr>"

definition forked22 :: relationship where
  "forked22 = \<lparr>rid = 14, rtype = ''forked_from'', start_node = repo2, end_node = repo2,
                rprops = []\<rparr>"

definition path12 :: path where
  "path12 = \<lparr>nodes = [user1, repo2], relationships = [owns12]\<rparr>"

definition path21 :: path where
  "path21 = \<lparr>nodes = [repo2, user1], relationships = [owns12]\<rparr>"

definition path_rev :: path where
  "path_rev = \<lparr>nodes = [repo2, user1], relationships = [owns21]\<rparr>"

definition path_rev' :: path where
  "path_rev' = \<lparr>nodes = [repo2, user1], relationships = [owns21']\<rparr>"

definition path32 :: path where
  "path32 = \<lparr>nodes = [team3, repo2], relationships = [owns32]\<rparr>"

definition path_fork :: path where
  "path_fork = \<lparr>nodes = [repo2, repo2], relationships = [forked22]\<rparr>"

definition decl_owns :: rel_decl where
  "decl_owns = [(''owns'', [(''owns_repo'', \<lparr>source = ''User'', target = ''Repo''\<rparr>)])]"

definition decl_two :: rel_decl where
  "decl_two = [(''owns'', [(''owns_repo'', \<lparr>source = ''User'', target = ''Repo''\<rparr>),
                            (''org_repo'', \<lparr>source = ''Org'', target = ''Repo''\<rparr>)])]"

definition store_of :: "node list \<Rightarrow> path list \<Rightarrow> store" where
  "store_of seeds paths =
     \<lparr>run_filter = (\<lambda>q. Inr seeds), run_expand = (\<lambda>ids depth. Inr paths),
      run_nodes = (\<lambda>lab. Inr []), run_edges = (\<lambda>sl rt dl. Inr [])\<rparr>"

definition store_down :: store where
  "store_down =
     \<lparr>run_filter = (\<lambda>q. Inl (DriverError ''unavailable'')),
      run_expand = (\<lambda>ids depth. Inl (DriverError ''unavailable'')),
      run_nodes = (\<lambda>lab. Inl (DriverError ''unavailable'')),
      run_edges = (\<lambda>sl rt dl. Inl (DriverError ''unavailable''))\<rparr>"

definition store_expand_fails :: store where
  "store_expand_fails =
     \<lparr>run_filter = (\<lambda>q. Inr [user1]),
      run_expand = (\<lambda>ids depth. Inl (Neo4jError ''transaction aborted'')),
      run_nodes = (\<lambda>lab. Inr []), run_edges = (\<lambda>sl rt dl. Inr [])\<rparr>"

section \<open>Lemmas\<close>

lemmas example_defs = user1_def repo2_def team3_def owns12_def owns21_def owns21'_def
  owns32_def forked22_def path12_def path21_def path_rev_def path_rev'_def path32_def
  path_fork_def decl_owns_def decl_two_def store_of_def store_down_def store_expand_fails_def

lemmas subgraph_defs = retrieve_subgraph_def collect_def process_path_def add_node_def
  add_label_def bucket_def add_relationship_def raw_of_def build_label_to_type_def
  init_grouped_def classify_pair_def classify_edge_def group_edges_def emit_group_def
  emit_groups_def Let_def

subsection \<open>Dictionaries\<close>

lemma bucket_update: "bucket (AList.update k v d) k' = (if k' = k then v else bucket d k')"
  by (simp add: bucket_def update_conv')

lemma bucket_None: "map_of d k = None \<Longrightarrow> bucket d k = []"
  by (simp add: bucket_def)

lemma bucket_Some: "map_of d k = Some xs \<Longrightarrow> bucket d k = xs"
  by (simp add: bucket_def)

lemma bucket_Nil: "bucket [] k = []"
  by (simp add: bucket_def)

lemma keys_update_fresh:
  "k \<notin> fst ` set d \<Longrightarrow> map fst (AList.update k v d) = map fst d @ [k]"
  by (simp add: update_keys)

subsection \<open>The raw edges collected from the paths\<close>

lemma keys_add_relationship:
  "fst ` set (add_relationship r tmp) = insert (rtype r) (fst ` set tmp)"
  by (simp add: add_relationship_def Let_def dom_update)

lemma keys_fold_add_relationship:
  "fst ` set (fold add_relationship rs tmp) = rtype ` set rs \<union> fst ` set tmp"
  by (induction rs arbitrary: tmp) (auto simp: keys_add_relationship)

lemma snd_fold_process_path:
  "snd (fold process_path ps st) =
     fold (\<lambda>p. fold add_relationship (relationships p)) ps (snd st)"
  by (induction ps arbitrary: st) (simp_all add: process_path_def)

lemma fst_fold_process_path:
  "fst (fold process_path ps st) = fold (\<lambda>p. fold add_node (nodes p)) ps (fst st)"
  by (induction ps arbitrary: st) (simp_all add: process_path_def)

lemma keys_fold_paths:
  "fst ` set (fold (\<lambda>p. fold add_relationship (relationships p)) ps tmp)
     = rtype ` (\<Union>p\<in>set ps. set (relationships p)) \<union> fst ` set tmp"
  by (induction ps arbitrary: tmp) (auto simp: keys_fold_add_relationship)

lemma keys_collect:
  "fst ` set (snd (collect paths)) = rtype ` (\<Union>p\<in>set paths. set (relationships p))"
  by (simp add: collect_def snd_fold_process_path keys_fold_paths)

lemma bucket_add_relationship:
  "bucket (add_relationship r tmp) k =
     (if k = rtype r then bucket tmp k @ [raw_of r] else bucket tmp k)"
  by (simp add: add_relationship_def Let_def bucket_update bucket_None)

lemma bucket_fold_add_relationship:
  "bucket (fold add_relationship rs tmp) k =
     bucket tmp k @ map raw_of (filter (\<lambda>r. rtype r = k) rs)"
  by (induction rs arbitrary: tmp) (simp_all add: bucket_add_relationship)

lemma bucket_fold_paths:
  "bucket (fold (\<lambda>p. fold add_relationship (relationships p)) ps tmp) k =
     bucket tmp k @ raw_edges_of ps k"
  by (induction ps arbitrary: tmp) (simp_all add: bucket_fold_add_relationship raw_edges_of_def)

lemma bucket_collect: "bucket (snd (collect paths)) k = raw_edges_of paths k"
  by (simp add: collect_def snd_fold_process_path bucket_fold_paths bucket_Nil)

lemma distinct_add_relationship:
  "distinct (map fst tmp) \<Longrightarrow> distinct (map fst (add_relationship r tmp))"
  by (simp add: add_relationship_def Let_def distinct_update)

lemma distinct_fold_add_relationship:
  "distinct (map fst tmp) \<Longrightarrow> distinct (map fst (fold add_relationship rs tmp))"
  by (induction rs arbitrary: tmp) (simp_all add: distinct_add_relationship)

lemma distinct_fold_paths:
  "distinct (map fst tmp) \<Longrightarrow>
     distinct (map fst (fold (\<lambda>p. fold add_relationship (relationships p)) ps tmp))"
  by (induction ps arbitrary: tmp) (simp_all add: distinct_fold_add_relationship)

lemma distinct_collect: "distinct (map fst (snd (collect paths)))"
  by (simp add: collect_def snd_fold_process_path distinct_fold_paths)

lemma raw_edges_of_Nil_iff:
  "raw_edges_of paths k = [] \<longleftrightarrow> k \<notin> rtype ` (\<Union>p\<in>set paths. set (relationships p))"
  by (auto simp: raw_edges_of_def filter_empty_conv)

lemma map_of_collect:
  "map_of (snd (collect paths)) k =
     (if raw_edges_of paths k = [] then None else Some (raw_edges_of paths k))"
proof (cases "map_of (snd (collect paths)) k")
  case None
  then have "k \<notin> fst ` set (snd (collect paths))" by (simp add: map_of_eq_None_iff)
  with None show ?thesis by (simp add: keys_collect raw_edges_of_Nil_iff)
next
  case (Some xs)
  then have "k \<in> fst ` set (snd (collect paths))"
    by (metis map_of_eq_None_iff option.distinct(1))
  moreover from Some have "xs = raw_edges_of paths k"
    using bucket_collect [of paths k] by (simp add: bucket_def)
  ultimately show ?thesis using Some by (simp add: keys_collect raw_edges_of_Nil_iff)
qed

subsection \<open>The node buckets\<close>

lemma bucket_add_label:
  "bucket (fst (add_label n lab (ids, feats))) k =
     (if k = lab \<and> nid n \<notin> set (bucket ids lab) then bucket ids lab @ [nid n]
      else bucket ids k)"
  by (auto simp: add_label_def Let_def bucket_update bucket_None)

lemma distinct_add_label:
  assumes "\<forall>k. distinct (bucket (fst st) k)"
  shows "\<forall>k. distinct (bucket (fst (add_label n lab st)) k)"
proof -
  obtain ids feats where st: "st = (ids, feats)" by (cases st)
  show ?thesis using assms unfolding st by (simp add: bucket_add_label)
qed

lemma distinct_fold_add_label:
  "\<forall>k. distinct (bucket (fst st) k) \<Longrightarrow>
     \<forall>k. distinct (bucket (fst (fold (add_label n) labs st)) k)"
  by (induction labs arbitrary: st) (simp_all add: distinct_add_label)

lemma distinct_add_node:
  "\<forall>k. distinct (bucket (fst st) k) \<Longrightarrow> \<forall>k. distinct (bucket (fst (add_node n st)) k)"
  unfolding add_node_def by (rule distinct_fold_add_label)

lemma distinct_fold_add_node:
  "\<forall>k. distinct (bucket (fst st) k) \<Longrightarrow>
     \<forall>k. distinct (bucket (fst (fold add_node ns st)) k)"
  by (induction ns arbitrary: st) (simp_all add: distinct_add_node)

lemma distinct_fold_nodes_paths:
  "\<forall>k. distinct (bucket (fst st) k) \<Longrightarrow>
     \<forall>k. distinct (bucket (fst (fold (\<lambda>p. fold add_node (nodes p)) ps st)) k)"
  by (induction ps arbitrary: st) (simp_all add: distinct_fold_add_node)

lemma distinct_buckets_collect: "distinct (bucket (fst (fst (collect paths))) k)"
  using distinct_fold_nodes_paths [of "([], [])" paths]
  by (simp add: collect_def fst_fold_process_path bucket_Nil)

subsection \<open>Grouping the raw edges of one type\<close>

lemma map_of_classify_pair:
  "map_of (classify_pair ltt e sl tl' g) tn =
     map_option (\<lambda>items. items @ (if map_of ltt (sl, tl') = Some tn then [e] else []))
       (map_of g tn)"
  by (auto simp: classify_pair_def update_conv' split: option.splits)

lemma keys_classify_pair: "map fst (classify_pair ltt e sl tl' g) = map fst g"
proof -
  have "map_of g k = Some v \<Longrightarrow> k \<in> fst ` set g" for k v
    by (metis map_of_eq_None_iff option.distinct(1))
  then show ?thesis
    by (auto simp: classify_pair_def update_keys split: option.splits)
qed

lemma map_of_fold_dst:
  "map_of (fold (classify_pair ltt e sl) dls g) tn =
     map_option (\<lambda>items. items @ map (\<lambda>pr. e)
         (filter (\<lambda>pr. map_of ltt pr = Some tn) (map (Pair sl) dls)))
       (map_of g tn)"
  by (induction dls arbitrary: g)
     (simp_all add: map_of_classify_pair option.map_comp comp_def option.map_ident)

lemma keys_fold_dst: "map fst (fold (classify_pair ltt e sl) dls g) = map fst g"
  by (induction dls arbitrary: g) (simp_all add: keys_classify_pair)

lemma map_of_fold_src:
  "map_of (fold (\<lambda>sl. fold (classify_pair ltt e sl) dls) sls g) tn =
     map_option (\<lambda>items. items @ map (\<lambda>pr. e)
         (filter (\<lambda>pr. map_of ltt pr = Some tn) (List.product sls dls)))
       (map_of g tn)"
  by (induction sls arbitrary: g)
     (simp_all add: map_of_fold_dst option.map_comp comp_def option.map_ident)

lemma keys_fold_src:
  "map fst (fold (\<lambda>sl. fold (classify_pair ltt e sl) dls) sls g) = map fst g"
  by (induction sls arbitrary: g) (simp_all add: keys_fold_dst)

lemma map_of_classify_edge:
  "map_of (classify_edge ltt t g) tn =
     map_option (\<lambda>items. items @ copies ltt tn t) (map_of g tn)"
  by (cases t) (simp add: classify_edge_def copies_def matching_pairs_def map_of_fold_src)

lemma keys_classify_edge: "map fst (classify_edge ltt t g) = map fst g"
  by (cases t) (simp add: classify_edge_def keys_fold_src)

lemma map_of_fold_classify_edge:
  "map_of (fold (classify_edge ltt) ts g) tn =
     map_option (\<lambda>items. items @ concat (map (copies ltt tn) ts)) (map_of g tn)"
  by (induction ts arbitrary: g)
     (simp_all add: map_of_classify_edge option.map_comp comp_def option.map_ident)

lemma keys_fold_classify_edge: "map fst (fold (classify_edge ltt) ts g) = map fst g"
  by (induction ts arbitrary: g) (simp_all add: keys_classify_edge)

lemma map_of_fold_init:
  "map_of (fold (\<lambda>typename. AList.update typename []) ks g) tn =
     (if tn \<in> set ks then Some [] else map_of g tn)"
  by (induction ks arbitrary: g) (auto simp: update_conv')

lemma distinct_fold_init:
  "distinct (map fst g) \<Longrightarrow>
     distinct (map fst (fold (\<lambda>typename. AList.update typename []) ks g))"
  by (induction ks arbitrary: g) (simp_all add: distinct_update)

lemma map_of_init_grouped:
  "map_of (init_grouped rd) tn = (if tn \<in> fst ` set rd then Some [] else None)"
  by (simp add: init_grouped_def map_of_fold_init)

lemma distinct_init_grouped: "distinct (map fst (init_grouped rd))"
  by (simp add: init_grouped_def distinct_fold_init)

lemma map_of_group_edges:
  "map_of (group_edges rd ts) tn =
     (if tn \<in> fst ` set rd then Some (concat (map (copies (build_label_to_type rd) tn) ts))
      else None)"
  by (simp add: group_edges_def map_of_fold_classify_edge map_of_init_grouped)

lemma distinct_group_edges: "distinct (map fst (group_edges rd ts))"
  by (simp add: group_edges_def keys_fold_classify_edge distinct_init_grouped)

lemma range_fold_label_to_type:
  "map_of (fold (\<lambda>(typename, info). AList.update (source info, target info) typename) rd acc) pr
     = Some tn \<Longrightarrow> tn \<in> fst ` set rd \<or> map_of acc pr = Some tn"
  by (induction rd arbitrary: acc) (force simp: update_conv' split: if_splits)+

text \<open>The subscript \<open>grouped[typename]\<close> never misses: a value of \<open>label_to_type\<close> is a
  key of \<open>grouped\<close>.\<close>

lemma label_to_type_in_grouped:
  "map_of (build_label_to_type rd) pr = Some tn \<Longrightarrow> map_of (group_edges rd ts) tn \<noteq> None"
  using range_fold_label_to_type [of rd "[]" pr tn]
  by (simp add: build_label_to_type_def map_of_group_edges)

lemma fold_dst_unmatched:
  "\<forall>y \<in> set dls. map_of ltt (sl, y) = None \<Longrightarrow> fold (classify_pair ltt e sl) dls g = g"
  by (induction dls) (simp_all add: classify_pair_def)

lemma fold_src_unmatched:
  "\<forall>x \<in> set sls. \<forall>y \<in> set dls. map_of ltt (x, y) = None \<Longrightarrow>
     fold (\<lambda>sl. fold (classify_pair ltt e sl) dls) sls g = g"
  by (induction sls) (simp_all add: fold_dst_unmatched)

lemma classify_edge_unmatched: "unmatched ltt t \<Longrightarrow> classify_edge ltt t g = g"
  by (cases t)
     (auto simp: unmatched_def classify_edge_def filter_empty_conv intro!: fold_src_unmatched)

lemma fold_classify_edge_filter:
  "fold (classify_edge ltt) (filter (\<lambda>t. \<not> unmatched ltt t) ts) g = fold (classify_edge ltt) ts g"
  by (induction ts arbitrary: g) (simp_all add: classify_edge_unmatched)

lemma group_edges_filter:
  "group_edges rd (filter (\<lambda>t. \<not> unmatched (build_label_to_type rd) t) ts) = group_edges rd ts"
  by (simp add: group_edges_def fold_classify_edge_filter)

subsection \<open>Emitting the groups\<close>

lemma map_of_emit_group_fst:
  "map_of (fst (emit_group (k, items) acc)) tn =
     (if tn = k \<and> items \<noteq> [] then Some [map fst items, map (\<lambda>e. fst (snd e)) items]
      else map_of (fst acc) tn)"
  by (simp add: emit_group_def update_conv')

lemma map_of_emit_group_snd:
  "map_of (snd (emit_group (k, items) acc)) tn =
     (if tn = k \<and> items \<noteq> [] then Some (map (\<lambda>e. snd (snd e)) items)
      else map_of (snd acc) tn)"
  by (simp add: emit_group_def update_conv')

lemma map_of_fold_emit_fst:
  "distinct (map fst g) \<Longrightarrow>
   map_of (fst (fold emit_group g acc)) tn =
     (case map_of g tn of
        None \<Rightarrow> map_of (fst acc) tn
      | Some items \<Rightarrow> if items = [] then map_of (fst acc) tn
                      else Some [map fst items, map (\<lambda>e. fst (snd e)) items])"
proof (induction g arbitrary: acc)
  case Nil
  then show ?case by simp
next
  case (Cons a g)
  obtain k items where a: "a = (k, items)" by (cases a)
  from Cons.prems a have nk: "map_of g k = None" and d: "distinct (map fst g)"
    by (simp_all add: map_of_eq_None_iff)
  show ?case
    using Cons.IH [OF d, of "emit_group (k, items) acc"] nk
    by (auto simp: a map_of_emit_group_fst split: option.splits)
qed

lemma map_of_fold_emit_snd:
  "distinct (map fst g) \<Longrightarrow>
   map_of (snd (fold emit_group g acc)) tn =
     (case map_of g tn of
        None \<Rightarrow> map_of (snd acc) tn
      | Some items \<Rightarrow> if items = [] then map_of (snd acc) tn
                      else Some (map (\<lambda>e. snd (snd e)) items))"
proof (induction g arbitrary: acc)
  case Nil
  then show ?case by simp
next
  case (Cons a g)
  obtain k items where a: "a = (k, items)" by (cases a)
  from Cons.prems a have nk: "map_of g k = None" and d: "distinct (map fst g)"
    by (simp_all add: map_of_eq_None_iff)
  show ?case
    using Cons.IH [OF d, of "emit_group (k, items) acc"] nk
    by (auto simp: a map_of_emit_group_snd split: option.splits)
qed

lemma map_of_emit_groups_fst:
  "map_of (fst (emit_groups (group_edges rd ts))) tn =
     (case map_of (group_edges rd ts) tn of
        None \<Rightarrow> None
      | Some items \<Rightarrow> if items = [] then None
                      else Some [map fst items, map (\<lambda>e. fst (snd e)) items])"
  by (simp add: emit_groups_def map_of_fold_emit_fst distinct_group_edges split: option.splits)

lemma map_of_emit_groups_snd:
  "map_of (snd (emit_groups (group_edges rd ts))) tn =
     (case map_of (group_edges rd ts) tn of
        None \<Rightarrow> None
      | Some items \<Rightarrow> if items = [] then None else Some (map (\<lambda>e. snd (snd e)) items))"
  by (simp add: emit_groups_def map_of_fold_emit_snd distinct_group_edges split: option.splits)

subsection \<open>The loop over the relationship types\<close>

lemma classify_all_Inl:
  "classify_all decl tmp acc = Inl e \<Longrightarrow>
     \<exists>k \<in> fst ` set tmp. e = KeyError k \<and> map_of decl k = None"
  by (induction decl tmp acc rule: classify_all.induct)
     (auto split: option.splits prod.splits)

lemma classify_all_Inr:
  "classify_all decl tmp acc = Inr res \<Longrightarrow> \<forall>k \<in> fst ` set tmp. map_of decl k \<noteq> None"
  by (induction decl tmp acc rule: classify_all.induct)
     (auto split: option.splits prod.splits)

lemma classify_all_total:
  "\<forall>k \<in> fst ` set tmp. map_of decl k \<noteq> None \<Longrightarrow> \<exists>res. classify_all decl tmp acc = Inr res"
  using classify_all_Inl [of decl tmp acc]
  by (cases "classify_all decl tmp acc") auto

lemma classify_all_lookup:
  "classify_all decl tmp acc = Inr res \<Longrightarrow> distinct (map fst tmp) \<Longrightarrow>
   (case map_of tmp rt of
      None \<Rightarrow> map_of (fst res) rt = map_of (fst acc) rt \<and> map_of (snd res) rt = map_of (snd acc) rt
    | Some triples \<Rightarrow>
        (\<exists>rd. map_of decl rt = Some rd
           \<and> map_of (fst res) rt = Some (fst (emit_groups (group_edges rd triples)))
           \<and> map_of (snd res) rt = Some (snd (emit_groups (group_edges rd triples)))))"
proof (induction decl tmp acc rule: classify_all.induct)
  case (1 decl acc)
  then show ?case by simp
next
  case (2 decl reltype triples rest edges_indices edges_attributes)
  from "2.prems"(1) obtain rd where rd: "map_of decl reltype = Some rd"
    by (auto split: option.splits)
  obtain ind att where ia: "emit_groups (group_edges rd triples) = (ind, att)"
    by (cases "emit_groups (group_edges rd triples)")
  let ?acc = "(AList.update reltype ind edges_indices, AList.update reltype att edges_attributes)"
  from "2.prems"(1) rd ia have rest: "classify_all decl rest ?acc = Inr res" by simp
  from "2.prems"(2) have d: "distinct (map fst rest)" and nk: "map_of rest reltype = None"
    by (simp_all add: map_of_eq_None_iff)
  have IH: "(case map_of rest rt of
      None \<Rightarrow> map_of (fst res) rt = map_of (fst ?acc) rt \<and> map_of (snd res) rt = map_of (snd ?acc) rt
    | Some triples \<Rightarrow>
        (\<exists>rd. map_of decl rt = Some rd
           \<and> map_of (fst res) rt = Some (fst (emit_groups (group_edges rd triples)))
           \<and> map_of (snd res) rt = Some (snd (emit_groups (group_edges rd triples)))))"
    using "2.IH" [OF rd ia [symmetric] refl rest d] .
  show ?case
  proof (cases "rt = reltype")
    case True
    with IH nk rd ia show ?thesis by (simp add: update_conv')
  next
    case False
    with IH show ?thesis by (simp add: update_conv' split: option.splits)
  qed
qed

subsection \<open>The extraction as a whole\<close>

lemma retrieve_subgraph_expanded:
  assumes "run_filter session q = Inr seeds" and "seeds \<noteq> []"
    and "run_expand session (map nid seeds) depth = Inr paths"
  shows "snd (retrieve_subgraph session decl q depth) =
     (case classify_all decl (snd (collect paths)) ([], []) of
        Inl e \<Rightarrow> Inl e
      | Inr res \<Rightarrow> Inr (fst (fst (collect paths)), snd (fst (collect paths)), fst res, snd res))"
  using assms
  by (simp add: retrieve_subgraph_def Let_def split: prod.splits sum.splits)

lemma retrieve_subgraph_empty:
  "run_filter session q = Inr [] \<Longrightarrow>
     snd (retrieve_subgraph session decl q depth) = Inr ([], [], [], [])"
  by (simp add: retrieve_subgraph_def)

lemma snapshot_parts:
  assumes "run_filter session q = Inr seeds"
    and "run_expand session (map nid seeds) depth = Inr paths"
    and "snd (retrieve_subgraph session decl q depth) = Inr (ids, feats, ei, ea)"
    and "seeds \<noteq> []"
  shows "ids = fst (fst (collect paths)) \<and> feats = snd (fst (collect paths))
       \<and> classify_all decl (snd (collect paths)) ([], []) = Inr (ei, ea)"
  using assms(3) unfolding retrieve_subgraph_expanded [OF assms(1) assms(4) assms(2)]
  by (auto split: sum.splits)

lemma snapshot_edges:
  assumes "run_filter session q = Inr seeds"
    and "run_expand session (map nid seeds) depth = Inr paths"
    and "snd (retrieve_subgraph session decl q depth) = Inr (ids, feats, ei, ea)"
    and "map_of ei rt = Some si \<or> map_of ea rt = Some sa
         \<or> (seeds \<noteq> [] \<and> raw_edges_of paths rt \<noteq> [])"
  shows "\<exists>rd. map_of decl rt = Some rd \<and> raw_edges_of paths rt \<noteq> []
       \<and> map_of ei rt = Some (fst (emit_groups (group_edges rd (raw_edges_of paths rt))))
       \<and> map_of ea rt = Some (snd (emit_groups (group_edges rd (raw_edges_of paths rt))))"
proof -
  have ne: "seeds \<noteq> []"
  proof
    assume "seeds = []"
    with assms(1,3) retrieve_subgraph_empty [of session q decl depth]
    have "ei = [] \<and> ea = []" by simp
    with assms(4) \<open>seeds = []\<close> show False by simp
  qed
  from snapshot_parts [OF assms(1-3) ne]
  have c: "classify_all decl (snd (collect paths)) ([], []) = Inr (ei, ea)" by simp
  note L = classify_all_lookup [OF c distinct_collect, of rt]
  show ?thesis
  proof (cases "raw_edges_of paths rt = []")
    case True
    then have "map_of (snd (collect paths)) rt = None" by (simp add: map_of_collect)
    with L have "map_of ei rt = None" "map_of ea rt = None" by simp_all
    with True assms(4) show ?thesis by simp
  next
    case False
    then have "map_of (snd (collect paths)) rt = Some (raw_edges_of paths rt)"
      by (simp add: map_of_collect)
    with L False show ?thesis by auto
  qed
qed

lemma retrieve_subgraph_snapshot:
  assumes "run_filter session q = Inr seeds" and "seeds \<noteq> []"
    and "run_expand session (map nid seeds) depth = Inr paths"
    and "classify_all decl (snd (collect paths)) ([], []) = Inr (ei, ea)"
  shows "retrieve_subgraph session decl q depth =
           ([Run_filter q, Print ''Starting expansion and extraction of subgraph...'',
             Run_expand (map nid seeds) depth, Print ''Finished extraction of subgraph.''],
            Inr (fst (fst (collect paths)), snd (fst (collect paths)), ei, ea))"
proof -
  obtain ids feats tmp where col: "collect paths = ((ids, feats), tmp)"
    by (cases "collect paths") auto
  with assms show ?thesis by (simp add: retrieve_subgraph_def Let_def)
qed

lemma copies_unmatched: "unmatched ltt t \<Longrightarrow> copies ltt tn t = []"
  by (cases t) (auto simp: unmatched_def copies_def matching_pairs_def filter_empty_conv)

lemma classified_lookup:
  assumes c: "classify_all decl (snd (collect paths)) ([], []) = Inr (ei, ea)"
  shows "map_of ei rt =
           (case map_of decl rt of
              None \<Rightarrow> None
            | Some rd \<Rightarrow>
                if raw_edges_of paths rt = [] then None
                else Some (fst (emit_groups (group_edges rd
                  (filter (\<lambda>t. \<not> unmatched (build_label_to_type rd) t) (raw_edges_of paths rt))))))
       \<and> map_of ea rt =
           (case map_of decl rt of
              None \<Rightarrow> None
            | Some rd \<Rightarrow>
                if raw_edges_of paths rt = [] then None
                else Some (snd (emit_groups (group_edges rd
                  (filter (\<lambda>t. \<not> unmatched (build_label_to_type rd) t) (raw_edges_of paths rt))))))"
proof (cases "raw_edges_of paths rt = []")
  case True
  then have "map_of (snd (collect paths)) rt = None" by (simp add: map_of_collect)
  with classify_all_lookup [OF c distinct_collect, of rt]
  have "map_of ei rt = None" "map_of ea rt = None" by simp_all
  with True show ?thesis by (simp split: option.splits)
next
  case False
  then have "map_of (snd (collect paths)) rt = Some (raw_edges_of paths rt)"
    by (simp add: map_of_collect)
  with classify_all_lookup [OF c distinct_collect, of rt] False show ?thesis
    by (auto simp: group_edges_filter)
qed

subsection \<open>\<open>retrieve_edges\<close>\<close>

lemma get_edges_Inr:
  "get_edges driver sl rt dl = Inr (arr, attrs) \<longleftrightarrow>
     (\<exists>rows. run_edges driver sl rt dl = Inr rows
        \<and> arr = np_array_T (map (\<lambda>r. (src r, dst r)) rows) \<and> attrs = map edge_features rows)"
  by (auto simp: get_edges_def split: sum.splits)

lemma retrieve_edges_sub_total:
  "\<forall>(type, val) \<in> set subdict. \<exists>rows. run_edges driver (source val) key (target val) = Inr rows
     \<Longrightarrow> \<exists>res. retrieve_edges_sub driver key subdict acc = Inr res"
proof (induction subdict arbitrary: acc)
  case Nil
  then show ?case by simp
next
  case (Cons a subdict)
  obtain type val where a: "a = (type, val)" by (cases a)
  obtain i0 a0 where acc: "acc = (i0, a0)" by (cases acc)
  from Cons.prems a obtain rows where
    "run_edges driver (source val) key (target val) = Inr rows" by auto
  then obtain arr attrs where g: "get_edges driver (source val) key (target val) = Inr (arr, attrs)"
    by (simp add: get_edges_def)
  from Cons.prems have "\<forall>(type, val) \<in> set subdict.
      \<exists>rows. run_edges driver (source val) key (target val) = Inr rows" by simp
  from Cons.IH [OF this] show ?case by (simp add: a acc g)
qed

lemma retrieve_edges_sub_keys:
  "retrieve_edges_sub driver key subdict (i0, a0) = Inr (si, sa) \<Longrightarrow>
   distinct (map fst i0 @ map fst subdict) \<Longrightarrow> map fst a0 = map fst i0 \<Longrightarrow>
   map fst si = map fst i0 @ map fst subdict \<and> map fst sa = map fst i0 @ map fst subdict"
proof (induction subdict arbitrary: i0 a0)
  case Nil
  then show ?case by simp
next
  case (Cons a subdict)
  obtain type val where a: "a = (type, val)" by (cases a)
  from Cons.prems(1) a obtain arr attrs where
    g: "get_edges driver (source val) key (target val) = Inr (arr, attrs)"
    and r: "retrieve_edges_sub driver key subdict
              (AList.update type arr i0, AList.update type attrs a0) = Inr (si, sa)"
    by (auto split: sum.splits)
  from Cons.prems(2) a have fresh: "type \<notin> fst ` set i0" by auto
  with Cons.prems(3) have fresh': "type \<notin> fst ` set a0"
    by (metis list.set_map)
  have k1: "map fst (AList.update type arr i0) = map fst i0 @ [type]"
    using fresh by (rule keys_update_fresh)
  have k2: "map fst (AList.update type attrs a0) = map fst i0 @ [type]"
    using fresh' Cons.prems(3) by (simp add: keys_update_fresh)
  have d: "distinct (map fst (AList.update type arr i0) @ map fst subdict)"
    using Cons.prems(2) a by (simp add: k1)
  from Cons.IH [OF r d] k1 k2 show ?case by (simp add: a)
qed

lemma retrieve_edges_sub_lookup:
  "retrieve_edges_sub driver key subdict (i0, a0) = Inr (si, sa) \<Longrightarrow>
   distinct (map fst subdict) \<Longrightarrow>
   (case map_of subdict type of
      None \<Rightarrow> map_of si type = map_of i0 type \<and> map_of sa type = map_of a0 type
    | Some val \<Rightarrow>
        (\<exists>rows. run_edges driver (source val) key (target val) = Inr rows
           \<and> map_of si type = Some (np_array_T (map (\<lambda>r. (src r, dst r)) rows))
           \<and> map_of sa type = Some (map edge_features rows)))"
proof (induction subdict arbitrary: i0 a0)
  case Nil
  then show ?case by simp
next
  case (Cons a subdict)
  obtain type' val where a: "a = (type', val)" by (cases a)
  from Cons.prems(1) a obtain arr attrs where
    g: "get_edges driver (source val) key (target val) = Inr (arr, attrs)"
    and r: "retrieve_edges_sub driver key subdict
              (AList.update type' arr i0, AList.update type' attrs a0) = Inr (si, sa)"
    by (auto split: sum.splits)
  from Cons.prems(2) a have d: "distinct (map fst subdict)" and nk: "map_of subdict type' = None"
    by (simp_all add: map_of_eq_None_iff)
  note IH = Cons.IH [OF r d]
  show ?case
  proof (cases "type = type'")
    case True
    with IH nk g show ?thesis by (simp add: a update_conv' get_edges_Inr)
  next
    case False
    with IH show ?thesis by (simp add: a update_conv' split: option.splits)
  qed
qed

lemma retrieve_edges_loop_total:
  "\<forall>(key, subdict) \<in> set rd. \<forall>(type, val) \<in> set subdict.
      \<exists>rows. run_edges driver (source val) key (target val) = Inr rows
     \<Longrightarrow> \<exists>res. retrieve_edges_loop driver rd acc = Inr res"
proof (induction rd arbitrary: acc)
  case Nil
  then show ?case by simp
next
  case (Cons a rd)
  obtain key subdict where a: "a = (key, subdict)" by (cases a)
  obtain i0 a0 where acc: "acc = (i0, a0)" by (cases acc)
  from Cons.prems a have "\<forall>(type, val) \<in> set subdict.
      \<exists>rows. run_edges driver (source val) key (target val) = Inr rows" by auto
  from retrieve_edges_sub_total [OF this, of "([], [])"]
  obtain si sa where s: "retrieve_edges_sub driver key subdict ([], []) = Inr (si, sa)" by auto
  from Cons.prems have "\<forall>(key, subdict) \<in> set rd. \<forall>(type, val) \<in> set subdict.
      \<exists>rows. run_edges driver (source val) key (target val) = Inr rows" by simp
  from Cons.IH [OF this] show ?case by (simp add: a acc s)
qed

lemma retrieve_edges_loop_keys:
  "retrieve_edges_loop driver rd (i0, a0) = Inr (ei, ea) \<Longrightarrow>
   distinct (map fst i0 @ map fst rd) \<Longrightarrow> map fst a0 = map fst i0 \<Longrightarrow>
   map fst ei = map fst i0 @ map fst rd \<and> map fst ea = map fst i0 @ map fst rd"
proof (induction rd arbitrary: i0 a0)
  case Nil
  then show ?case by simp
next
  case (Cons a rd)
  obtain key subdict where a: "a = (key, subdict)" by (cases a)
  from Cons.prems(1) a obtain si sa where
    r: "retrieve_edges_loop driver rd
          (AList.update key si i0, AList.update key sa a0) = Inr (ei, ea)"
    by (auto split: sum.splits)
  from Cons.prems(2) a have fresh: "key \<notin> fst ` set i0" by auto
  with Cons.prems(3) have fresh': "key \<notin> fst ` set a0"
    by (metis list.set_map)
  have k1: "map fst (AList.update key si i0) = map fst i0 @ [key]"
    using fresh by (rule keys_update_fresh)
  have k2: "map fst (AList.update key sa a0) = map fst i0 @ [key]"
    using fresh' Cons.prems(3) by (simp add: keys_update_fresh)
  have d: "distinct (map fst (AList.update key si i0) @ map fst rd)"
    using Cons.prems(2) a by (simp add: k1)
  from Cons.IH [OF r d] k1 k2 show ?case by (simp add: a)
qed

lemma retrieve_edges_loop_lookup:
  "retrieve_edges_loop driver rd (i0, a0) = Inr (ei, ea) \<Longrightarrow>
   distinct (map fst rd) \<Longrightarrow>
   (case map_of rd key of
      None \<Rightarrow> map_of ei key = map_of i0 key \<and> map_of ea key = map_of a0 key
    | Some subdict \<Rightarrow>
        (\<exists>si sa. retrieve_edges_sub driver key subdict ([], []) = Inr (si, sa)
           \<and> map_of ei key = Some si \<and> map_of ea key = Some sa))"
proof (induction rd arbitrary: i0 a0)
  case Nil
  then show ?case by simp
next
  case (Cons a rd)
  obtain key' subdict where a: "a = (key', subdict)" by (cases a)
  from Cons.prems(1) a obtain si sa where
    s: "retrieve_edges_sub driver key' subdict ([], []) = Inr (si, sa)"
    and r: "retrieve_edges_loop driver rd
          (AList.update key' si i0, AList.update key' sa a0) = Inr (ei, ea)"
    by (auto split: sum.splits)
  from Cons.prems(2) a have d: "distinct (map fst rd)" and nk: "map_of rd key' = None"
    by (simp_all add: map_of_eq_None_iff)
  note IH = Cons.IH [OF r d]
  show ?case
  proof (cases "key = key'")
    case True
    with IH nk s show ?thesis by (simp add: a update_conv')
  next
    case False
    with IH show ?thesis by (simp add: a update_conv' split: option.splits)
  qed
qed

section \<open>The claims\<close>

text \<open>C1. Whenever a path of the traversal result holds a relationship whose type has no
  entry in the caller's declaration, the extraction fails: \<open>relationships[reltype]\<close>
  raises \<open>KeyError\<close> for a type of the raw data that the declaration lacks, and no
  snapshot is returned. The type is neither skipped nor classified.\<close>

theorem undeclared_type_raises:
  assumes "run_filter session q = Inr seeds" and "seeds \<noteq> []"
    and "run_expand session (map nid seeds) depth = Inr paths"
    and "p \<in> set paths" and "r \<in> set (relationships p)"
    and "map_of decl (rtype r) = None"
  shows "\<exists>k. snd (retrieve_subgraph session decl q depth) = Inl (KeyError k)
           \<and> map_of decl k = None
           \<and> k \<in> rtype ` (\<Union>p\<in>set paths. set (relationships p))"
proof -
  from assms(4,5) have "rtype r \<in> fst ` set (snd (collect paths))"
    unfolding keys_collect by blast
  with assms(6) have "\<not> (\<exists>res. classify_all decl (snd (collect paths)) ([], []) = Inr res)"
    using classify_all_Inr by blast
  then obtain e where e: "classify_all decl (snd (collect paths)) ([], []) = Inl e"
    by (cases "classify_all decl (snd (collect paths)) ([], [])") auto
  from classify_all_Inl [OF e] obtain k where
    k: "e = KeyError k" "map_of decl k = None"
       "k \<in> rtype ` (\<Union>p\<in>set paths. set (relationships p))"
    unfolding keys_collect by auto
  have "snd (retrieve_subgraph session decl q depth) = Inl e"
    using retrieve_subgraph_expanded [OF assms(1-3), of decl] e by simp
  with k show ?thesis by blast
qed

theorem undeclared_type_raises_witness:
  "\<exists>k. snd (retrieve_subgraph (store_of [repo2] [path_fork]) decl_owns
              ''MATCH (n:Repo) RETURN n'' 1) = Inl (KeyError k)
       \<and> map_of decl_owns k = None
       \<and> k \<in> rtype ` (\<Union>p\<in>set [path_fork]. set (relationships p))"
  by (rule undeclared_type_raises [where seeds = "[repo2]" and r = forked22 and p = path_fork])
     (simp_all add: example_defs)

text \<open>C2, as the code has it. The two label loops have no \<open>break\<close>: every pair of the
  cartesian product of source labels and destination labels that is in the lookup
  appends the edge to the group of that pair's sub-type. The group of a declared
  sub-type is therefore, in input order, one copy of each raw edge for each of its label
  pairs that the lookup maps to this sub-type; an edge with one matching pair is placed
  once, an edge with several is placed several times.\<close>

theorem edge_appended_per_matching_pair:
  assumes "typename \<in> fst ` set rd"
  shows "map_of (group_edges rd triples) typename =
           Some (concat (map (copies (build_label_to_type rd) typename) triples))"
  using assms by (simp add: map_of_group_edges)

theorem edge_appended_per_matching_pair_witness:
  "map_of (group_edges [(''owns_repo'', \<lparr>source = ''User'', target = ''Repo''\<rparr>),
                        (''org_repo'', \<lparr>source = ''Org'', target = ''Repo''\<rparr>)]
             [raw_of owns32, raw_of owns12]) ''owns_repo''
     = Some (concat (map (copies (build_label_to_type
                [(''owns_repo'', \<lparr>source = ''User'', target = ''Repo''\<rparr>),
                 (''org_repo'', \<lparr>source = ''Org'', target = ''Repo''\<rparr>)]) ''owns_repo'')
             [raw_of owns32, raw_of owns12]))"
  by (rule edge_appended_per_matching_pair) simp

text \<open>C2, as the claim states it, fails: one \<open>owns\<close> edge from a node labelled \<open>User\<close>
  and \<open>Org\<close> to a repository, under a declaration with a sub-type for each of the two
  label pairs, is emitted in both sub-type groups.\<close>

theorem first_pair_only_counterexample:
  "snd (retrieve_subgraph (store_of [team3] [path32]) decl_two ''MATCH (n:Org) RETURN n'' 1)
     = Inr ([(''User'', [3]), (''Org'', [3]), (''Repo'', [2])],
            [(''User'', [[(''name'', ''core'')]]), (''Org'', [[(''name'', ''core'')]]),
             (''Repo'', [[(''name'', ''odonata'')]])],
            [(''owns'', [(''owns_repo'', [[3], [2]]), (''org_repo'', [[3], [2]])])],
            [(''owns'', [(''owns_repo'', [[]]), (''org_repo'', [[]])])])"
  by (simp add: subgraph_defs example_defs)

text \<open>C3 fails on the code. With the two seeds \<open>user1\<close> and \<open>repo2\<close> and depth 1
  the traversal returns one path from each seed, and both paths hold the relationship
  with identity 10. The relationship loop appends a tuple for each of them, so the one
  relationship has two entries among the raw edges of its type and two columns in the
  emitted array. The node loop of the same function tests membership before it appends
  (each of the two nodes is listed once); the relationship loop has no such test.\<close>

theorem raw_edge_duplicated_across_paths:
  "map rid (concat (map relationships [path12, path21])) = [10, 10]
   \<and> map_of (snd (collect [path12, path21])) ''owns''
       = Some [(1, 2, [], [''User''], [''Repo'']), (1, 2, [], [''User''], [''Repo''])]
   \<and> snd (retrieve_subgraph (store_of [user1, repo2] [path12, path21]) decl_owns
            ''MATCH (n) RETURN n'' 1)
       = Inr ([(''User'', [1]), (''Repo'', [2])],
              [(''User'', [[(''name'', ''ann'')]]), (''Repo'', [[(''name'', ''odonata'')]])],
              [(''owns'', [(''owns_repo'', [[1, 1], [2, 2]])])],
              [(''owns'', [(''owns_repo'', [[], []])])])"
  by (simp add: subgraph_defs example_defs)

text \<open>C4. In the node-id mapping of every snapshot that the extraction returns, no bucket
  holds a node id twice.\<close>

theorem node_bucket_ids_distinct:
  assumes "snd (retrieve_subgraph session decl q depth) = Inr (ids, feats, ei, ea)"
    and "map_of ids lab = Some xs"
  shows "distinct xs"
proof (cases "run_filter session q")
  case (Inl e)
  with assms(1) show ?thesis by (simp add: retrieve_subgraph_def)
next
  case (Inr seeds)
  show ?thesis
  proof (cases "seeds = []")
    case True
    with Inr assms show ?thesis by (simp add: retrieve_subgraph_empty)
  next
    case False
    show ?thesis
    proof (cases "run_expand session (map nid seeds) depth")
      case (Inl e)
      with Inr False assms(1) show ?thesis by (simp add: retrieve_subgraph_def Let_def)
    next
      case paths: (Inr paths)
      from snapshot_parts [OF Inr paths assms(1) False]
      have "ids = fst (fst (collect paths))" by simp
      with assms(2) distinct_buckets_collect [of paths lab] show ?thesis
        by (simp add: bucket_Some)
    qed
  qed
qed

theorem node_bucket_ids_distinct_witness:
  "snd (retrieve_subgraph (store_of [user1] [path12, path21]) decl_owns
          ''MATCH (n:User) RETURN n'' 2)
     = Inr ([(''User'', [1]), (''Repo'', [2])],
            [(''User'', [[(''name'', ''ann'')]]), (''Repo'', [[(''name'', ''odonata'')]])],
            [(''owns'', [(''owns_repo'', [[1, 1], [2, 2]])])],
            [(''owns'', [(''owns_repo'', [[], []])])])
   \<and> distinct [1::int]"
proof -
  have r: "snd (retrieve_subgraph (store_of [user1] [path12, path21]) decl_owns
          ''MATCH (n:User) RETURN n'' 2)
     = Inr ([(''User'', [1]), (''Repo'', [2])],
            [(''User'', [[(''name'', ''ann'')]]), (''Repo'', [[(''name'', ''odonata'')]])],
            [(''owns'', [(''owns_repo'', [[1, 1], [2, 2]])])],
            [(''owns'', [(''owns_repo'', [[], []])])])"
    by (simp add: subgraph_defs example_defs)
  have l: "map_of [(''User'', [1::int]), (''Repo'', [2])] ''User'' = Some [1]" by simp
  from node_bucket_ids_distinct [OF r l] r show ?thesis by blast
qed

text \<open>C5. When the seed query returns no node, the extraction returns four empty
  mappings straight away: the filter query is the only thing it has sent, it has printed
  nothing, and it raises nothing.\<close>

theorem empty_seed_short_circuits:
  assumes "run_filter session q = Inr []"
  shows "retrieve_subgraph session decl q depth = ([Run_filter q], Inr ([], [], [], []))"
  using assms by (simp add: retrieve_subgraph_def)

theorem empty_seed_short_circuits_witness:
  "retrieve_subgraph (store_of [] [path12]) decl_owns ''MATCH (n:Nobody) RETURN n'' 2
     = ([Run_filter ''MATCH (n:Nobody) RETURN n''], Inr ([], [], [], []))"
  by (rule empty_seed_short_circuits) (simp add: store_of_def)

text \<open>C6. Every array in the edge-index mapping of a returned snapshot comes from a
  non-empty group of classified edges: it has two rows, the source ids and the
  destination ids of the group in classification order, each as long as the group, and
  the edge-attribute mapping holds under the same two keys the property dictionaries of
  the group, in the same order and of the same length.\<close>

theorem edge_index_shape_aligned:
  assumes "run_filter session q = Inr seeds"
    and "run_expand session (map nid seeds) depth = Inr paths"
    and "snd (retrieve_subgraph session decl q depth) = Inr (ids, feats, ei, ea)"
    and "map_of ei rt = Some si" and "map_of si tn = Some arr"
  shows "\<exists>rd items sa feats_tn.
           map_of decl rt = Some rd
         \<and> map_of (group_edges rd (raw_edges_of paths rt)) tn = Some items
         \<and> items = concat (map (copies (build_label_to_type rd) tn) (raw_edges_of paths rt))
         \<and> items \<noteq> []
         \<and> arr = [map fst items, map (\<lambda>e. fst (snd e)) items]
         \<and> length arr = 2 \<and> length (arr ! 0) = length items \<and> length (arr ! 1) = length items
         \<and> map_of ea rt = Some sa \<and> map_of sa tn = Some feats_tn
         \<and> feats_tn = map (\<lambda>e. snd (snd e)) items \<and> length feats_tn = length items"
proof -
  from snapshot_edges [OF assms(1-3), of rt si] assms(4) obtain rd where
    rd: "map_of decl rt = Some rd"
    and ei: "map_of ei rt = Some (fst (emit_groups (group_edges rd (raw_edges_of paths rt))))"
    and ea: "map_of ea rt = Some (snd (emit_groups (group_edges rd (raw_edges_of paths rt))))"
    by blast
  let ?g = "group_edges rd (raw_edges_of paths rt)"
  from ei assms(4,5) have "map_of (fst (emit_groups ?g)) tn = Some arr" by simp
  then obtain items where
    g: "map_of ?g tn = Some items" and ne: "items \<noteq> []"
    and arr: "arr = [map fst items, map (\<lambda>e. fst (snd e)) items]"
    unfolding map_of_emit_groups_fst by (auto split: option.splits if_splits)
  from g have items:
    "items = concat (map (copies (build_label_to_type rd) tn) (raw_edges_of paths rt))"
    by (simp add: map_of_group_edges split: if_splits)
  have "map_of (snd (emit_groups ?g)) tn = Some (map (\<lambda>e. snd (snd e)) items)"
    using g ne by (simp add: map_of_emit_groups_snd)
  with rd g items ne arr ea show ?thesis by simp
qed

theorem edge_index_shape_aligned_witness:
  "\<exists>rd items sa feats_tn.
       map_of decl_owns ''owns'' = Some rd
     \<and> map_of (group_edges rd (raw_edges_of [path12, path21] ''owns'')) ''owns_repo'' = Some items
     \<and> items = concat (map (copies (build_label_to_type rd) ''owns_repo'')
                          (raw_edges_of [path12, path21] ''owns''))
     \<and> items \<noteq> []
     \<and> [[1, 1], [2, 2]] = [map fst items, map (\<lambda>e. fst (snd e)) items]
     \<and> length [[1, 1], [2, 2 :: int]] = 2
     \<and> length ([[1, 1], [2, 2 :: int]] ! 0) = length items
     \<and> length ([[1, 1], [2, 2 :: int]] ! 1) = length items
     \<and> map_of [(''owns'', [(''owns_repo'', [[], []])])] ''owns'' = Some sa
     \<and> map_of sa ''owns_repo'' = Some feats_tn
     \<and> feats_tn = map (\<lambda>e. snd (snd e)) items \<and> length feats_tn = length items"
proof -
  have f: "run_filter (store_of [user1] [path12, path21]) ''MATCH (n:User) RETURN n''
             = Inr [user1]"
    by (simp add: store_of_def)
  have e: "run_expand (store_of [user1] [path12, path21]) (map nid [user1]) 2
             = Inr [path12, path21]"
    by (simp add: store_of_def)
  have r: "snd (retrieve_subgraph (store_of [user1] [path12, path21]) decl_owns
          ''MATCH (n:User) RETURN n'' 2)
     = Inr ([(''User'', [1]), (''Repo'', [2])],
            [(''User'', [[(''name'', ''ann'')]]), (''Repo'', [[(''name'', ''odonata'')]])],
            [(''owns'', [(''owns_repo'', [[1, 1], [2, 2]])])],
            [(''owns'', [(''owns_repo'', [[], []])])])"
    by (simp add: subgraph_defs example_defs)
  have l1: "map_of [(''owns'', [(''owns_repo'', [[1, 1], [2, 2 :: int]])])] ''owns''
              = Some [(''owns_repo'', [[1, 1], [2, 2]])]" by simp
  have l2: "map_of [(''owns_repo'', [[1, 1], [2, 2 :: int]])] ''owns_repo''
              = Some [[1, 1], [2, 2]]" by simp
  show ?thesis by (rule edge_index_shape_aligned [OF f e r l1 l2])
qed

text \<open>C7. A declared sub-type whose group of classified edges is empty has no key in
  the output: neither in the edge-index mapping nor in the edge-attribute mapping of its
  relationship type.\<close>

theorem empty_subtype_omitted:
  assumes "run_filter session q = Inr seeds"
    and "run_expand session (map nid seeds) depth = Inr paths"
    and "snd (retrieve_subgraph session decl q depth) = Inr (ids, feats, ei, ea)"
    and "map_of decl rt = Some rd"
    and "map_of (group_edges rd (raw_edges_of paths rt)) tn = Some []"
  shows "(\<forall>si. map_of ei rt = Some si \<longrightarrow> map_of si tn = None)
       \<and> (\<forall>sa. map_of ea rt = Some sa \<longrightarrow> map_of sa tn = None)"
proof (intro conjI allI impI)
  fix si assume si: "map_of ei rt = Some si"
  from snapshot_edges [OF assms(1-3), of rt si] si assms(4)
  have "si = fst (emit_groups (group_edges rd (raw_edges_of paths rt)))" by auto
  with assms(5) show "map_of si tn = None" by (simp add: map_of_emit_groups_fst)
next
  fix sa assume sa: "map_of ea rt = Some sa"
  from snapshot_edges [OF assms(1-3), of rt undefined sa] sa assms(4)
  have "sa = snd (emit_groups (group_edges rd (raw_edges_of paths rt)))" by auto
  with assms(5) show "map_of sa tn = None" by (simp add: map_of_emit_groups_snd)
qed

theorem empty_subtype_omitted_witness:
  "snd (retrieve_subgraph (store_of [user1] [path_rev]) decl_owns
          ''MATCH (n:User) RETURN n'' 1)
     = Inr ([(''Repo'', [2]), (''User'', [1])],
            [(''Repo'', [[(''name'', ''odonata'')]]), (''User'', [[(''name'', ''ann'')]])],
            [(''owns'', [])], [(''owns'', [])])
   \<and> map_of (group_edges [(''owns_repo'', \<lparr>source = ''User'', target = ''Repo''\<rparr>)]
               (raw_edges_of [path_rev] ''owns'')) ''owns_repo'' = Some []
   \<and> map_of [(''owns'', [])] ''owns'' = Some ([] :: (string, ndarray) dict)
   \<and> map_of ([] :: (string, ndarray) dict) ''owns_repo'' = None
   \<and> map_of [(''owns'', [])] ''owns'' = Some ([] :: (string, props list) dict)
   \<and> map_of ([] :: (string, props list) dict) ''owns_repo'' = None"
proof -
  have f: "run_filter (store_of [user1] [path_rev]) ''MATCH (n:User) RETURN n'' = Inr [user1]"
    by (simp add: store_of_def)
  have e: "run_expand (store_of [user1] [path_rev]) (map nid [user1]) 1 = Inr [path_rev]"
    by (simp add: store_of_def)
  have r: "snd (retrieve_subgraph (store_of [user1] [path_rev]) decl_owns
          ''MATCH (n:User) RETURN n'' 1)
     = Inr ([(''Repo'', [2]), (''User'', [1])],
            [(''Repo'', [[(''name'', ''odonata'')]]), (''User'', [[(''name'', ''ann'')]])],
            [(''owns'', [])], [(''owns'', [])])"
    by (simp add: subgraph_defs example_defs)
  have d: "map_of decl_owns ''owns''
             = Some [(''owns_repo'', \<lparr>source = ''User'', target = ''Repo''\<rparr>)]"
    by (simp add: decl_owns_def)
  have g: "map_of (group_edges [(''owns_repo'', \<lparr>source = ''User'', target = ''Repo''\<rparr>)]
                     (raw_edges_of [path_rev] ''owns'')) ''owns_repo'' = Some []"
    by (simp add: subgraph_defs example_defs raw_edges_of_def)
  have l1: "map_of [(''owns'', [])] ''owns'' = Some ([] :: (string, ndarray) dict)" by simp
  have l2: "map_of [(''owns'', [])] ''owns'' = Some ([] :: (string, props list) dict)" by simp
  from empty_subtype_omitted [OF f e r d g] l1 l2
  have "map_of ([] :: (string, ndarray) dict) ''owns_repo'' = None
      \<and> map_of ([] :: (string, props list) dict) ''owns_repo'' = None"
    by blast
  with r g l1 l2 show ?thesis by blast
qed

text \<open>C8, as the code has it. A raw edge of a declared type none of whose label pairs
  is in the lookup is dropped without an error: it leaves the groups as they are and
  adds a copy of itself to no sub-type. When every relationship type of the raw data is
  declared, the extraction returns a snapshot; under each relationship type that has
  raw edges, matched or not, the two edge mappings hold what the matched edges of the
  type give, and no other relationship type has a key. What the caller receives is the
  same four events and the four mappings; none of it counts the dropped edges.\<close>

theorem unmatched_edge_dropped_silently:
  assumes "run_filter session q = Inr seeds" and "seeds \<noteq> []"
    and "run_expand session (map nid seeds) depth = Inr paths"
    and "\<forall>k \<in> rtype ` (\<Union>p\<in>set paths. set (relationships p)). map_of decl k \<noteq> None"
  shows "\<exists>ei ea.
           retrieve_subgraph session decl q depth =
             ([Run_filter q, Print ''Starting expansion and extraction of subgraph...'',
               Run_expand (map nid seeds) depth, Print ''Finished extraction of subgraph.''],
              Inr (fst (fst (collect paths)), snd (fst (collect paths)), ei, ea))
         \<and> (\<forall>rt. map_of ei rt =
               (case map_of decl rt of
                  None \<Rightarrow> None
                | Some rd \<Rightarrow>
                    if raw_edges_of paths rt = [] then None
                    else Some (fst (emit_groups (group_edges rd
                      (filter (\<lambda>t. \<not> unmatched (build_label_to_type rd) t)
                         (raw_edges_of paths rt))))))
             \<and> map_of ea rt =
               (case map_of decl rt of
                  None \<Rightarrow> None
                | Some rd \<Rightarrow>
                    if raw_edges_of paths rt = [] then None
                    else Some (snd (emit_groups (group_edges rd
                      (filter (\<lambda>t. \<not> unmatched (build_label_to_type rd) t)
                         (raw_edges_of paths rt)))))))
         \<and> (\<forall>rt rd t typename. map_of decl rt = Some rd \<and> unmatched (build_label_to_type rd) t
               \<longrightarrow> copies (build_label_to_type rd) typename t = []
                 \<and> classify_edge (build_label_to_type rd) t = (\<lambda>grouped. grouped))"
proof -
  from assms(4) have "\<forall>k \<in> fst ` set (snd (collect paths)). map_of decl k \<noteq> None"
    unfolding keys_collect .
  from classify_all_total [OF this, of "([], [])"]
  obtain ei ea where c: "classify_all decl (snd (collect paths)) ([], []) = Inr (ei, ea)"
    by auto
  note r = retrieve_subgraph_snapshot [OF assms(1-3) c]
  note l = classified_lookup [OF c]
  have u: "copies (build_label_to_type rd) typename t = []
         \<and> classify_edge (build_label_to_type rd) t = (\<lambda>grouped. grouped)"
    if "unmatched (build_label_to_type rd) t" for rd t typename
    using that by (auto simp: copies_unmatched classify_edge_unmatched)
  from r l u show ?thesis by blast
qed

theorem unmatched_edge_dropped_silently_witness:
  "\<exists>ei ea.
       retrieve_subgraph (store_of [user1] [path_rev]) decl_owns ''MATCH (n:User) RETURN n'' 1 =
         ([Run_filter ''MATCH (n:User) RETURN n'',
           Print ''Starting expansion and extraction of subgraph...'',
           Run_expand (map nid [user1]) 1, Print ''Finished extraction of subgraph.''],
          Inr (fst (fst (collect [path_rev])), snd (fst (collect [path_rev])), ei, ea))
     \<and> (\<forall>rt. map_of ei rt =
           (case map_of decl_owns rt of
              None \<Rightarrow> None
            | Some rd \<Rightarrow>
                if raw_edges_of [path_rev] rt = [] then None
                else Some (fst (emit_groups (group_edges rd
                  (filter (\<lambda>t. \<not> unmatched (build_label_to_type rd) t)
                     (raw_edges_of [path_rev] rt))))))
         \<and> map_of ea rt =
           (case map_of decl_owns rt of
              None \<Rightarrow> None
            | Some rd \<Rightarrow>
                if raw_edges_of [path_rev] rt = [] then None
                else Some (snd (emit_groups (group_edges rd
                  (filter (\<lambda>t. \<not> unmatched (build_label_to_type rd) t)
                     (raw_edges_of [path_rev] rt)))))))
     \<and> (\<forall>rt rd t typename. map_of decl_owns rt = Some rd \<and> unmatched (build_label_to_type rd) t
           \<longrightarrow> copies (build_label_to_type rd) typename t = []
             \<and> classify_edge (build_label_to_type rd) t = (\<lambda>grouped. grouped))"
  by (rule unmatched_edge_dropped_silently [where seeds = "[user1]"])
     (simp_all add: example_defs)

text \<open>C8, as the claim states it, fails: a traversal with one unmatched edge and a
  traversal with two unmatched edges give the caller the very same result, events
  included, so the caller is told no discard count.\<close>

theorem discard_count_counterexample:
  "retrieve_subgraph (store_of [user1] [path_rev]) decl_owns ''MATCH (n:User) RETURN n'' 1
     = retrieve_subgraph (store_of [user1] [path_rev, path_rev']) decl_owns
         ''MATCH (n:User) RETURN n'' 1
   \<and> length (filter (unmatched (build_label_to_type
               [(''owns_repo'', \<lparr>source = ''User'', target = ''Repo''\<rparr>)]))
        (raw_edges_of [path_rev] ''owns'')) = 1
   \<and> length (filter (unmatched (build_label_to_type
               [(''owns_repo'', \<lparr>source = ''User'', target = ''Repo''\<rparr>)]))
        (raw_edges_of [path_rev, path_rev'] ''owns'')) = 2"
  by (simp add: subgraph_defs example_defs raw_edges_of_def unmatched_def)

text \<open>C9. An exception of the store leaves \<open>get_nodes\<close> and the extraction as the
  exception it is, whether it is the seed query or the expansion query that fails: the
  caller gets the error and no snapshot.\<close>

theorem store_failure_propagates:
  "(run_nodes session lab = Inl e \<longrightarrow> snd (get_nodes session lab) = Inl e) \<and>
   (run_filter session q = Inl e \<longrightarrow> snd (retrieve_subgraph session decl q depth) = Inl e) \<and>
   (run_filter session q = Inr seeds \<and> seeds \<noteq> [] \<and>
      run_expand session (map nid seeds) depth = Inl e \<longrightarrow>
        snd (retrieve_subgraph session decl q depth) = Inl e)"
  by (auto simp: retrieve_subgraph_def get_nodes_def Let_def split: error.splits)

theorem store_failure_propagates_witness:
  "snd (get_nodes store_down ''User'') = Inl (DriverError ''unavailable'') \<and>
   snd (retrieve_subgraph store_down decl_owns ''MATCH (n:User) RETURN n'' 2)
     = Inl (DriverError ''unavailable'') \<and>
   snd (retrieve_subgraph store_expand_fails decl_owns ''MATCH (n:User) RETURN n'' 2)
     = Inl (Neo4jError ''transaction aborted'')"
  using store_failure_propagates [of store_down "''User''" "DriverError ''unavailable''"
          "''MATCH (n:User) RETURN n''" decl_owns 2 "[]"]
        store_failure_propagates [of store_expand_fails "''User''"
          "Neo4jError ''transaction aborted''" "''MATCH (n:User) RETURN n''" decl_owns 2
          "[user1]"]
  by (simp add: store_down_def store_expand_fails_def)

text \<open>C10. When no query fails, \<open>retrieve_edges\<close> returns two mappings whose keys are
  the relationship types of the declaration, in its order, and under each type the
  sub-types declared for it, in their order: every declared pair has an entry, holding
  whatever its query returned, the empty array and the empty list when it returned no
  row.\<close>

theorem retrieve_edges_mirrors_declaration:
  assumes keys: "distinct (map fst relationship_dict)"
    and subkeys: "\<forall>(key, subdict) \<in> set relationship_dict. distinct (map fst subdict)"
    and ok: "\<forall>(key, subdict) \<in> set relationship_dict. \<forall>(type, val) \<in> set subdict.
               \<exists>rows. run_edges driver (source val) key (target val) = Inr rows"
  shows "\<exists>edges_index edges_attributes.
           retrieve_edges driver relationship_dict = Inr (edges_index, edges_attributes)
         \<and> map fst edges_index = map fst relationship_dict
         \<and> map fst edges_attributes = map fst relationship_dict
         \<and> (\<forall>key subdict. (key, subdict) \<in> set relationship_dict \<longrightarrow>
              (\<exists>si sa. map_of edges_index key = Some si \<and> map_of edges_attributes key = Some sa
                 \<and> map fst si = map fst subdict \<and> map fst sa = map fst subdict
                 \<and> (\<forall>type val. (type, val) \<in> set subdict \<longrightarrow>
                      (\<exists>rows. run_edges driver (source val) key (target val) = Inr rows
                         \<and> map_of si type = Some (np_array_T (map (\<lambda>r. (src r, dst r)) rows))
                         \<and> map_of sa type = Some (map edge_features rows)))))"
proof -
  from retrieve_edges_loop_total [OF ok, of "([], [])"]
  obtain ei ea where r: "retrieve_edges_loop driver relationship_dict ([], []) = Inr (ei, ea)"
    by auto
  have k: "map fst ei = map fst relationship_dict \<and> map fst ea = map fst relationship_dict"
    using retrieve_edges_loop_keys [OF r] keys by simp
  have sub: "\<exists>si sa. map_of ei key = Some si \<and> map_of ea key = Some sa
                 \<and> map fst si = map fst subdict \<and> map fst sa = map fst subdict
                 \<and> (\<forall>type val. (type, val) \<in> set subdict \<longrightarrow>
                      (\<exists>rows. run_edges driver (source val) key (target val) = Inr rows
                         \<and> map_of si type = Some (np_array_T (map (\<lambda>r. (src r, dst r)) rows))
                         \<and> map_of sa type = Some (map edge_features rows)))"
    if mem: "(key, subdict) \<in> set relationship_dict" for key subdict
  proof -
    from mem keys have m: "map_of relationship_dict key = Some subdict" by simp
    from mem subkeys have ds: "distinct (map fst subdict)" by auto
    from retrieve_edges_loop_lookup [OF r keys, of key] m obtain si sa where
      s: "retrieve_edges_sub driver key subdict ([], []) = Inr (si, sa)"
      and l: "map_of ei key = Some si" "map_of ea key = Some sa" by auto
    have ks: "map fst si = map fst subdict \<and> map fst sa = map fst subdict"
      using retrieve_edges_sub_keys [OF s] ds by simp
    have "\<exists>rows. run_edges driver (source val) key (target val) = Inr rows
             \<and> map_of si type = Some (np_array_T (map (\<lambda>r. (src r, dst r)) rows))
             \<and> map_of sa type = Some (map edge_features rows)"
      if "(type, val) \<in> set subdict" for type val
    proof -
      from that ds have "map_of subdict type = Some val" by simp
      with retrieve_edges_sub_lookup [OF s ds, of type] show ?thesis by simp
    qed
    with l ks show ?thesis by blast
  qed
  from r k sub show ?thesis unfolding retrieve_edges_def by blast
qed

theorem retrieve_edges_mirrors_declaration_witness:
  "retrieve_edges (store_of [] []) decl_two
     = Inr ([(''owns'', [(''owns_repo'', []), (''org_repo'', [])])],
            [(''owns'', [(''owns_repo'', []), (''org_repo'', [])])])
   \<and> (\<exists>edges_index edges_attributes.
           retrieve_edges (store_of [] []) decl_two = Inr (edges_index, edges_attributes)
         \<and> map fst edges_index = map fst decl_two
         \<and> map fst edges_attributes = map fst decl_two
         \<and> (\<forall>key subdict. (key, subdict) \<in> set decl_two \<longrightarrow>
              (\<exists>si sa. map_of edges_index key = Some si \<and> map_of edges_attributes key = Some sa
                 \<and> map fst si = map fst subdict \<and> map fst sa = map fst subdict
                 \<and> (\<forall>type val. (type, val) \<in> set subdict \<longrightarrow>
                      (\<exists>rows. run_edges (store_of [] []) (source val) key (target val) = Inr rows
                         \<and> map_of si type = Some (np_array_T (map (\<lambda>r. (src r, dst r)) rows))
                         \<and> map_of sa type = Some (map edge_features rows))))))"
proof -
  have k: "distinct (map fst decl_two)" by (simp add: decl_two_def)
  have s: "\<forall>(key, subdict) \<in> set decl_two. distinct (map fst subdict)"
    by (simp add: decl_two_def)
  have ok: "\<forall>(key, subdict) \<in> set decl_two. \<forall>(type, val) \<in> set subdict.
              \<exists>rows. run_edges (store_of [] []) (source val) key (target val) = Inr rows"
    by (simp add: decl_two_def store_of_def)
  have v: "retrieve_edges (store_of [] []) decl_two
     = Inr ([(''owns'', [(''owns_repo'', []), (''org_repo'', [])])],
            [(''owns'', [(''owns_repo'', []), (''org_repo'', [])])])"
    by (simp add: retrieve_edges_def get_edges_def np_array_T_def decl_two_def store_of_def)
  from retrieve_edges_mirrors_declaration [OF k s ok] v show ?thesis by blast
qed

end
